theory Spec2Isabelle
  imports Main "HOL-Library.Multiset"
begin

section \<open>The GRANT statement of stmt/stmts/grant.go\<close>

text \<open>
  The development embeds \<^verbatim>\<open>GrantStmt.Exec\<close> and the functions it calls.  The session
  context \<^verbatim>\<open>ctx\<close> of the Go code is an explicit record that is passed in and returned.
  A Go \<^verbatim>\<open>error\<close> result is a \<open>failure option\<close> (\<open>None\<close> is \<^verbatim>\<open>nil\<close>), a result
  \<^verbatim>\<open>(v, error)\<close> is \<open>failure + 'a\<close>, and a run-time panic is a failure of its own.
\<close>

subsection \<open>Declarations of the packages mysqldef, coldef, model and expression\<close>

text \<open>\<^verbatim>\<open>mysql.PrivilegeType\<close> is an integer type; only equality on it is used.\<close>

type_synonym PrivilegeType = nat

text \<open>
  The tables of package \<^verbatim>\<open>mysqldef\<close> that grant.go reads are declared outside this file
  and are parameters of the model: the constant \<^verbatim>\<open>AllPriv\<close>, the Go map
  \<^verbatim>\<open>Priv2UserCol\<close> from a privilege to its column name, and the slice \<^verbatim>\<open>AllDBPrivs\<close>.
\<close>

record mysqldef =
  AllPriv :: PrivilegeType
  Priv2UserCol :: "PrivilegeType \<rightharpoonup> string"
  AllDBPrivs :: "PrivilegeType list"

text \<open>
  \<^verbatim>\<open>coldef.GrantLevel.Level\<close> is an \<^verbatim>\<open>int\<close> compared with three constants of \<^verbatim>\<open>coldef\<close>;
  \<open>GrantLevelOther n\<close> stands for every other value of the field.
\<close>

datatype GrantLevelType =
  GrantLevelGlobal | GrantLevelDB | GrantLevelTable | GrantLevelOther int

record GrantLevel =
  Level :: GrantLevelType
  DBName :: string
  TableName :: string

record PrivElem =
  Priv :: PrivilegeType
  Cols :: "string list"

record UserSpecification =
  User :: string

text \<open>The field \<^verbatim>\<open>GrantStmt.Level\<close> is \<open>StmtLevel\<close>, so that \<^verbatim>\<open>s.Level.Level\<close> is
  \<open>Level (StmtLevel s)\<close>.  The pointers of the statement (\<^verbatim>\<open>Level\<close>, the elements of
  \<^verbatim>\<open>Privs\<close> and \<^verbatim>\<open>Users\<close>) are the values they point to.\<close>

record GrantStmt =
  Privs :: "PrivElem list"
  ObjectType :: int
  StmtLevel :: GrantLevel
  Users :: "UserSpecification list"
  Text :: string

text \<open>\<^verbatim>\<open>model.DBInfo\<close>: only \<^verbatim>\<open>Name.O\<close>, the name as the schema was created, is read.\<close>

record DBInfo =
  Name_O :: string

text \<open>\<^verbatim>\<open>expression.Assignment\<close> with a constant \<^verbatim>\<open>expression.Value\<close> on the right.\<close>

record Assignment =
  ColName :: string
  Expr :: string

text \<open>
  The filter expressions grant.go builds: \<open>EQ col v\<close> is
  \<^verbatim>\<open>NewBinaryOperation(opcode.EQ, &Ident{col}, &Value{v})\<close> and \<open>AndAnd\<close> is \<^verbatim>\<open>opcode.AndAnd\<close>.
\<close>

datatype Expression = EQ string string | AndAnd Expression Expression

subsection \<open>Failures\<close>

text \<open>
  One constructor for each \<^verbatim>\<open>errors.Errorf\<close> of the file, \<open>IndexOutOfRange\<close> for the
  run-time panic of a slice index beyond the length, and \<open>StoreError\<close> for an error that
  the statement executor returns, such as a conflict surfaced by the store.
\<close>

datatype failure =
    IndexOutOfRange
  | UnknownUser string
  | MissDBName
  | UnknownSchemaName string
  | UnknownPriv PrivilegeType
  | UnknownDBPrivilege PrivilegeType
  | UnknownGrantLevel GrantLevel
  | StoreError string

subsection \<open>The catalog and the session context\<close>

text \<open>A row of a catalog table gives every column name its value.\<close>

type_synonym row = "string \<Rightarrow> string"

datatype catalog_table = UserTable | DBTable

text \<open>The mutating statements handed to the executor: an \<^verbatim>\<open>InsertIntoStmt\<close> with its table,
  column names and one list of values, an \<^verbatim>\<open>UpdateStmt\<close> with its table, assignment list
  and where-expression.\<close>

datatype mutation =
    is_Insert: Insert catalog_table "string list" "string list"
  | is_Update: Update catalog_table "Assignment list" Expression

text \<open>
  The context: the session's current schema (\<^verbatim>\<open>db.GetCurrentSchema\<close>), the schema catalog
  (\<open>SchemaByName c n\<close> is \<^verbatim>\<open>InfoSchema().SchemaByName(model.NewCIStr(n))\<close>), the rows of
  \<^verbatim>\<open>mysql.user\<close> and \<^verbatim>\<open>mysql.db\<close>, and the statements handed to the executor so far,
  oldest first.  Whether the executor accepts a statement is not decided in grant.go:
  \<open>execError c n\<close> is its answer to the \<open>n\<close>-th statement handed to it, \<open>None\<close> when it
  executes the statement.
  Go does not fix the order in which \<^verbatim>\<open>range\<close> visits a map: \<open>mapOrder c n\<close> is the order
  of the keys at the \<open>n\<close>-th \<^verbatim>\<open>range\<close> over \<^verbatim>\<open>Priv2UserCol\<close>, \<open>ranges c\<close> counts them.
\<close>

record ctx =
  currentSchema :: string
  SchemaByName :: "string \<Rightarrow> DBInfo option"
  userTable :: "row list"
  dbTable :: "row list"
  issued :: "mutation list"
  execError :: "nat \<Rightarrow> failure option"
  mapOrder :: "nat \<Rightarrow> PrivilegeType list"
  ranges :: nat

text \<open>A list of keys is an order in which \<^verbatim>\<open>range\<close> may visit a map: every key once.\<close>

definition range_order :: "('k \<rightharpoonup> 'v) \<Rightarrow> 'k list \<Rightarrow> bool" where
  "range_order m ks \<longleftrightarrow> distinct ks \<and> set ks = dom m"

subsection \<open>Library functions\<close>

text \<open>\<^verbatim>\<open>strings.Split(s, sep)\<close> for a separator of one character: the pieces between the
  separators, one more than there are separators.\<close>

fun strings_Split :: "string \<Rightarrow> char \<Rightarrow> string list" where
  "strings_Split [] sep = [Nil]"
| "strings_Split (x # xs) sep =
     (if x = sep then [] # strings_Split xs sep
      else (case strings_Split xs sep of
              [] \<Rightarrow> [x # Nil]
            | y # ys \<Rightarrow> (x # y) # ys))"

text \<open>A slice index \<^verbatim>\<open>xs[i]\<close>: it panics beyond the length.\<close>

definition index :: "'a list \<Rightarrow> nat \<Rightarrow> failure + 'a" where
  "index xs i = (if i < length xs then Inr (xs ! i) else Inl IndexOutOfRange)"

subsection \<open>Statement execution and scans\<close>

fun holds :: "row \<Rightarrow> Expression \<Rightarrow> bool" where
  "holds r (EQ col v) = (r col = v)"
| "holds r (AndAnd a b) = (holds r a \<and> holds r b)"

definition table_rows :: "catalog_table \<Rightarrow> ctx \<Rightarrow> row list" where
  "table_rows t c = (case t of UserTable \<Rightarrow> userTable c | DBTable \<Rightarrow> dbTable c)"

definition set_table_rows :: "catalog_table \<Rightarrow> row list \<Rightarrow> ctx \<Rightarrow> ctx" where
  "set_table_rows t rs c =
     (case t of UserTable \<Rightarrow> c\<lparr>userTable := rs\<rparr> | DBTable \<Rightarrow> c\<lparr>dbTable := rs\<rparr>)"

text \<open>The row an insert builds: the named columns get the values, every other column its
  default.\<close>

definition default_row :: row where
  "default_row = (\<lambda>_. ''N'')"

fun set_columns :: "(string \<times> string) list \<Rightarrow> row \<Rightarrow> row" where
  "set_columns [] r = r"
| "set_columns ((col, v) # as) r = set_columns as (r(col := v))"

text \<open>
  Modelled from the spec: \<^verbatim>\<open>InsertIntoStmt.Exec\<close> is in another file of the package.
  Spec 6: the execution of a statement returns an error or none; spec 5: the store may
  surface a conflict.  Spec 4.5: the insert adds one new row with all privilege columns
  at their default (negative) value.  The statement is handed to the executor; with the
  answer \<open>None\<close> the row is appended, with an error the rows stay as they are and the
  error is returned.
\<close>

definition InsertIntoStmt_Exec ::
  "catalog_table \<Rightarrow> string list \<Rightarrow> string list \<Rightarrow> ctx \<Rightarrow> failure option \<times> ctx" where
  "InsertIntoStmt_Exec t colNames vals c =
     (let c1 = c\<lparr>issued := issued c @ [Insert t colNames vals]\<rparr>
      in case execError c (length (issued c)) of
           Some err \<Rightarrow> (Some err, c1)
         | None \<Rightarrow>
             (None,
              set_table_rows t
                (table_rows t c @ [set_columns (zip colNames vals) default_row]) c1))"

text \<open>
  Modelled from the spec: \<^verbatim>\<open>UpdateStmt.Exec\<close> is in another file of the package.
  Spec 6 and 5 as for the insert.  Spec 4.5: an UPDATE restricted by the filter, setting
  each named column to the given value; zero matched rows is not an error.
\<close>

definition UpdateStmt_Exec ::
  "catalog_table \<Rightarrow> Assignment list \<Rightarrow> Expression \<Rightarrow> ctx \<Rightarrow> failure option \<times> ctx" where
  "UpdateStmt_Exec t asgns wh c =
     (let c1 = c\<lparr>issued := issued c @ [Update t asgns wh]\<rparr>
      in case execError c (length (issued c)) of
           Some err \<Rightarrow> (Some err, c1)
         | None \<Rightarrow>
             (None,
              set_table_rows t
                (map (\<lambda>r. if holds r wh
                          then set_columns (map (\<lambda>a. (ColName a, Expr a)) asgns) r else r)
                   (table_rows t c)) c1))"

text \<open>
  Modelled from the spec: the plans of package \<^verbatim>\<open>rsets\<close> and their cursor are outside
  this file.  Spec 6: \<^verbatim>\<open>Plan() -> cursor\<close>, \<^verbatim>\<open>cursor.Next() -> row | end\<close>; spec 4.4: a
  scan is a pure read of the table.  A plan is the list of the rows it will still
  produce; the spec names no error of a scan, so each of the three returns a result.
\<close>

type_synonym plan = "row list"

definition JoinRset_Plan :: "catalog_table \<Rightarrow> ctx \<Rightarrow> failure + plan" where
  "JoinRset_Plan t c = Inr (table_rows t c)"

definition WhereRset_Plan :: "plan \<Rightarrow> Expression \<Rightarrow> ctx \<Rightarrow> failure + plan" where
  "WhereRset_Plan src expr c = Inr (filter (\<lambda>r. holds r expr) src)"

definition Plan_Next :: "plan \<Rightarrow> ctx \<Rightarrow> failure + row option" where
  "Plan_Next p c = Inr (case p of [] \<Rightarrow> None | r # rs \<Rightarrow> Some r)"

text \<open>
  Modelled from the spec: \<^verbatim>\<open>composeUserTableRset\<close>, \<^verbatim>\<open>composeUserTableFilter\<close> and
  \<^verbatim>\<open>userExists\<close> are in another file of the package.  Spec 4.4: the filter is equality
  on host and user; \<open>userExists\<close> runs it over the user table through the scan interface
  and tests whether at least one row is produced.
\<close>

definition composeUserTableRset :: catalog_table where
  "composeUserTableRset = UserTable"

definition composeUserTableFilter :: "string \<Rightarrow> string \<Rightarrow> Expression" where
  "composeUserTableFilter name host = AndAnd (EQ ''User'' name) (EQ ''Host'' host)"

definition userExists :: "ctx \<Rightarrow> string \<Rightarrow> string \<Rightarrow> failure + bool" where
  "userExists c name host =
     (case JoinRset_Plan composeUserTableRset c of
        Inl err \<Rightarrow> Inl err
      | Inr p \<Rightarrow>
          (case WhereRset_Plan p (composeUserTableFilter name host) c of
             Inl err \<Rightarrow> Inl err
           | Inr p \<Rightarrow>
               (case Plan_Next p c of
                  Inl err \<Rightarrow> Inl err
                | Inr row \<Rightarrow> Inr (row \<noteq> None))))"

subsection \<open>grant.go\<close>

definition composeDBTableFilter :: "string \<Rightarrow> string \<Rightarrow> string \<Rightarrow> Expression" where
  "composeDBTableFilter name host db = AndAnd (composeUserTableFilter name host) (EQ ''DB'' db)"

text \<open>\<^verbatim>\<open>composeDBTableRset\<close>: the table source \<^verbatim>\<open>mysql.db\<close>.\<close>

definition composeDBTableRset :: catalog_table where
  "composeDBTableRset = DBTable"

definition dbUserExists :: "ctx \<Rightarrow> string \<Rightarrow> string \<Rightarrow> string \<Rightarrow> failure + bool" where
  "dbUserExists c name host db =
     (case JoinRset_Plan composeDBTableRset c of
        Inl err \<Rightarrow> Inl err
      | Inr p \<Rightarrow>
          (case WhereRset_Plan p (composeDBTableFilter name host db) c of
             Inl err \<Rightarrow> Inl err
           | Inr p \<Rightarrow>
               (case Plan_Next p c of
                  Inl err \<Rightarrow> Inl err
                | Inr row \<Rightarrow> Inr (row \<noteq> None))))"

definition getTargetSchema :: "GrantStmt \<Rightarrow> ctx \<Rightarrow> failure + DBInfo" where
  "getTargetSchema s c =
     (let dbName = DBName (StmtLevel s);
          dbName = (if length dbName = 0 then currentSchema c else dbName)
      in if length dbName = 0 then Inl MissDBName
         else (case SchemaByName c dbName of
                 None \<Rightarrow> Inl (UnknownSchemaName dbName)
               | Some db \<Rightarrow> Inr db))"

definition initDBPrivEntry :: "ctx \<Rightarrow> string \<Rightarrow> string \<Rightarrow> string \<Rightarrow> failure option \<times> ctx" where
  "initDBPrivEntry c user host db =
     InsertIntoStmt_Exec DBTable [''Host'', ''User'', ''DB''] [host, user, db] c"

definition checkAndInitDBPriv :: "GrantStmt \<Rightarrow> ctx \<Rightarrow> string \<Rightarrow> string \<Rightarrow> failure option \<times> ctx" where
  "checkAndInitDBPriv s c user host =
     (case getTargetSchema s c of
        Inl err \<Rightarrow> (Some err, c)
      | Inr db \<Rightarrow>
          (case dbUserExists c user host (Name_O db) of
             Inl err \<Rightarrow> (Some err, c)
           | Inr ok \<Rightarrow>
               if ok then (None, c)
               else initDBPrivEntry c user host (Name_O db)))"

definition assignY :: "string \<Rightarrow> Assignment" where
  "assignY col = \<lparr>ColName = col, Expr = ''Y''\<rparr>"

text \<open>\<open>composeGlobalPrivUpdate md ks priv\<close>: \<open>ks\<close> is the order in which this call's
  \<^verbatim>\<open>range mysql.Priv2UserCol\<close> visits the keys.\<close>

definition composeGlobalPrivUpdate ::
  "mysqldef \<Rightarrow> PrivilegeType list \<Rightarrow> PrivilegeType \<Rightarrow> failure + Assignment list" where
  "composeGlobalPrivUpdate md ks priv =
     (if priv = AllPriv md
      then Inr (map assignY (List.map_filter (Priv2UserCol md) ks))
      else (case Priv2UserCol md priv of
              None \<Rightarrow> Inl (UnknownPriv priv)
            | Some col \<Rightarrow> Inr [assignY col]))"

text \<open>The loop of \<^verbatim>\<open>composeDBPrivUpdate\<close> over \<^verbatim>\<open>mysql.AllDBPrivs\<close>, with the assignments
  collected so far.\<close>

fun composeAllDBPrivs ::
  "mysqldef \<Rightarrow> PrivilegeType \<Rightarrow> PrivilegeType list \<Rightarrow> Assignment list \<Rightarrow> failure + Assignment list" where
  "composeAllDBPrivs md priv [] assigns = Inr assigns"
| "composeAllDBPrivs md priv (p # ps) assigns =
     (case Priv2UserCol md p of
        None \<Rightarrow> Inl (UnknownDBPrivilege priv)
      | Some v \<Rightarrow> composeAllDBPrivs md priv ps (assigns @ [assignY v]))"

definition composeDBPrivUpdate :: "mysqldef \<Rightarrow> PrivilegeType \<Rightarrow> failure + Assignment list" where
  "composeDBPrivUpdate md priv =
     (if priv = AllPriv md then composeAllDBPrivs md priv (AllDBPrivs md) []
      else (case Priv2UserCol md priv of
              None \<Rightarrow> Inl (UnknownPriv priv)
            | Some col \<Rightarrow> Inr [assignY col]))"

definition grantGlobalPriv ::
  "mysqldef \<Rightarrow> GrantStmt \<Rightarrow> PrivElem \<Rightarrow> UserSpecification \<Rightarrow> ctx \<Rightarrow> failure option \<times> ctx" where
  "grantGlobalPriv md s priv user c =
     (let c1 = (if Priv priv = AllPriv md then c\<lparr>ranges := Suc (ranges c)\<rparr> else c)
      in case composeGlobalPrivUpdate md (mapOrder c (ranges c)) (Priv priv) of
           Inl err \<Rightarrow> (Some err, c1)
         | Inr asgns \<Rightarrow>
             (let strs = strings_Split (User user) (CHR ''@'')
              in case index strs 0 of
                   Inl p \<Rightarrow> (Some p, c1)
                 | Inr userName \<Rightarrow>
                     (case index strs 1 of
                        Inl p \<Rightarrow> (Some p, c1)
                      | Inr host \<Rightarrow>
                          UpdateStmt_Exec composeUserTableRset asgns
                            (composeUserTableFilter userName host) c1)))"

definition grantDBPriv ::
  "mysqldef \<Rightarrow> GrantStmt \<Rightarrow> PrivElem \<Rightarrow> UserSpecification \<Rightarrow> ctx \<Rightarrow> failure option \<times> ctx" where
  "grantDBPriv md s priv user c =
     (case getTargetSchema s c of
        Inl err \<Rightarrow> (Some err, c)
      | Inr db \<Rightarrow>
          (case composeDBPrivUpdate md (Priv priv) of
             Inl err \<Rightarrow> (Some err, c)
           | Inr asgns \<Rightarrow>
               (let strs = strings_Split (User user) (CHR ''@'')
                in case index strs 0 of
                     Inl p \<Rightarrow> (Some p, c)
                   | Inr userName \<Rightarrow>
                       (case index strs 1 of
                          Inl p \<Rightarrow> (Some p, c)
                        | Inr host \<Rightarrow>
                            UpdateStmt_Exec composeDBTableRset asgns
                              (composeDBTableFilter userName host (Name_O db)) c))))"

definition grantTablePriv ::
  "GrantStmt \<Rightarrow> PrivElem \<Rightarrow> UserSpecification \<Rightarrow> ctx \<Rightarrow> failure option \<times> ctx" where
  "grantTablePriv s priv user c = (None, c)"

definition grantPriv ::
  "mysqldef \<Rightarrow> GrantStmt \<Rightarrow> PrivElem \<Rightarrow> UserSpecification \<Rightarrow> ctx \<Rightarrow> failure option \<times> ctx" where
  "grantPriv md s priv user c =
     (case Level (StmtLevel s) of
        GrantLevelGlobal \<Rightarrow> grantGlobalPriv md s priv user c
      | GrantLevelDB \<Rightarrow> grantDBPriv md s priv user c
      | GrantLevelTable \<Rightarrow> grantTablePriv s priv user c
      | GrantLevelOther n \<Rightarrow> (Some (UnknownGrantLevel (StmtLevel s)), c))"

text \<open>The inner loop of \<^verbatim>\<open>Exec\<close>, \<^verbatim>\<open>for _, priv := range s.Privs\<close>: the first error ends it,
  and what was executed before stays.\<close>

fun grantPrivs ::
  "mysqldef \<Rightarrow> GrantStmt \<Rightarrow> PrivElem list \<Rightarrow> UserSpecification \<Rightarrow> ctx \<Rightarrow> failure option \<times> ctx" where
  "grantPrivs md s [] user c = (None, c)"
| "grantPrivs md s (priv # privs) user c =
     (case grantPriv md s priv user c of
        (Some err, c') \<Rightarrow> (Some err, c')
      | (None, c') \<Rightarrow> grantPrivs md s privs user c')"

text \<open>The body of the outer loop of \<^verbatim>\<open>Exec\<close>, for one element of \<^verbatim>\<open>s.Users\<close>.\<close>

definition Exec_user ::
  "mysqldef \<Rightarrow> GrantStmt \<Rightarrow> UserSpecification \<Rightarrow> ctx \<Rightarrow> failure option \<times> ctx" where
  "Exec_user md s user c =
     (let strs = strings_Split (User user) (CHR ''@'')
      in case index strs 0 of
           Inl p \<Rightarrow> (Some p, c)
         | Inr userName \<Rightarrow>
             (case index strs 1 of
                Inl p \<Rightarrow> (Some p, c)
              | Inr host \<Rightarrow>
                  (case userExists c userName host of
                     Inl err \<Rightarrow> (Some err, c)
                   | Inr exists \<Rightarrow>
                       if \<not> exists then (Some (UnknownUser (User user)), c)
                       else (case (if Level (StmtLevel s) = GrantLevelDB
                                   then checkAndInitDBPriv s c userName host
                                   else (None, c)) of
                               (Some err, c') \<Rightarrow> (Some err, c')
                             | (None, c') \<Rightarrow> grantPrivs md s (Privs s) user c'))))"

text \<open>The outer loop, \<^verbatim>\<open>for _, user := range s.Users\<close>, and \<^verbatim>\<open>Exec\<close> itself.\<close>

fun Exec_users ::
  "mysqldef \<Rightarrow> GrantStmt \<Rightarrow> UserSpecification list \<Rightarrow> ctx \<Rightarrow> failure option \<times> ctx" where
  "Exec_users md s [] c = (None, c)"
| "Exec_users md s (user # users) c =
     (case Exec_user md s user c of
        (Some err, c') \<Rightarrow> (Some err, c')
      | (None, c') \<Rightarrow> Exec_users md s users c')"

definition Exec :: "mysqldef \<Rightarrow> GrantStmt \<Rightarrow> ctx \<Rightarrow> failure option \<times> ctx" where
  "Exec md s c = Exec_users md s (Users s) c"

subsection \<open>The tables of mysqldef, as the spec describes them\<close>

text \<open>
  Modelled from the spec: the tables of \<^verbatim>\<open>mysqldef\<close> are declared outside this file.
  Spec 3 and 4.3: a static table from privilege kind to column name and the derived set
  of database-scope privileges; the global and the database set differ, by a privilege
  valid only at global scope; the user-privilege table has one column per privilege kind.
\<close>

definition priv_tables :: "mysqldef \<Rightarrow> bool" where
  "priv_tables md \<longleftrightarrow>
     inj_on (Priv2UserCol md) (dom (Priv2UserCol md)) \<and>
     set (AllDBPrivs md) \<subseteq> dom (Priv2UserCol md) \<and>
     (\<exists>p \<in> dom (Priv2UserCol md). p \<notin> set (AllDBPrivs md))"

subsection \<open>Instances used to evaluate the statements\<close>

text \<open>A small instance of the tables: SELECT and INSERT at both scopes, CREATE USER at
  global scope only, \<open>0\<close> for ALL.\<close>

definition ex_mysqldef :: mysqldef where
  "ex_mysqldef =
     \<lparr>AllPriv = 0,
      Priv2UserCol = [1 \<mapsto> ''Select_priv'', 2 \<mapsto> ''Insert_priv'', 3 \<mapsto> ''Create_user_priv''],
      AllDBPrivs = [1, 2]\<rparr>"

text \<open>A session with current schema \<open>test\<close>, the schemas \<open>test\<close> and \<open>db1\<close>, the account
  \<open>alice@%\<close>, no row in \<^verbatim>\<open>mysql.db\<close> and an executor that accepts every statement.\<close>

definition ex_ctx :: ctx where
  "ex_ctx =
     \<lparr>currentSchema = ''test'',
      SchemaByName = (\<lambda>n. if n = ''test'' \<or> n = ''db1'' then Some \<lparr>Name_O = n\<rparr> else None),
      userTable = [default_row(''Host'' := ''%'', ''User'' := ''alice'')],
      dbTable = [],
      issued = [],
      execError = (\<lambda>_. None),
      mapOrder = (\<lambda>_. [1, 2, 3]),
      ranges = 0\<rparr>"

text \<open>The statement \<^verbatim>\<open>GRANT privs ON level TO users\<close>.\<close>

definition ex_stmt ::
  "GrantLevelType \<Rightarrow> string \<Rightarrow> PrivilegeType list \<Rightarrow> string list \<Rightarrow> GrantStmt" where
  "ex_stmt lv db ps us =
     \<lparr>Privs = map (\<lambda>p. \<lparr>Priv = p, Cols = []\<rparr>) ps,
      ObjectType = 0,
      StmtLevel = \<lparr>Level = lv, DBName = db, TableName = []\<rparr>,
      Users = map (\<lambda>u. \<lparr>User = u\<rparr>) us,
      Text = []\<rparr>"

text \<open>The same session once \<open>alice@%\<close> has her row for \<open>db1\<close> in \<^verbatim>\<open>mysql.db\<close>.\<close>

definition ex_ctx_row :: ctx where
  "ex_ctx_row =
     ex_ctx\<lparr>dbTable := [default_row(''Host'' := ''%'', ''User'' := ''alice'', ''DB'' := ''db1'')]\<rparr>"




subsection \<open>Relations between the context before and after\<close>

text \<open>A row after grants: every column has the value it had, or it is a column of
  \<^verbatim>\<open>Priv2UserCol\<close> and has the value Y.\<close>

definition grants_only :: "mysqldef \<Rightarrow> row \<Rightarrow> row \<Rightarrow> bool" where
  "grants_only md r r' \<longleftrightarrow>
     (\<forall>col. r' col = r col \<or> (r' col = ''Y'' \<and> col \<in> ran (Priv2UserCol md)))"

text \<open>The rows of a table after updates: the same rows in the same places, each one
  changed by grants only.\<close>

definition rows_updated :: "mysqldef \<Rightarrow> row list \<Rightarrow> row list \<Rightarrow> bool" where
  "rows_updated md rs rs' \<longleftrightarrow> (\<exists>f. rs' = map f rs \<and> (\<forall>r \<in> set rs. grants_only md r (f r)))"

text \<open>From \<open>c\<close> to \<open>c'\<close> only UPDATE statements were handed to the executor, and both
  tables kept their rows.\<close>

definition updates_only :: "mysqldef \<Rightarrow> ctx \<Rightarrow> ctx \<Rightarrow> bool" where
  "updates_only md c c' \<longleftrightarrow>
     (\<exists>ups. issued c' = issued c @ ups \<and> list_all is_Update ups) \<and>
     rows_updated md (userTable c) (userTable c') \<and>
     rows_updated md (dbTable c) (dbTable c')"

text \<open>A principal passes the first check of \<^verbatim>\<open>Exec\<close>: its string has a name and a host,
  and the account is in the user table.\<close>

definition accepted :: "ctx \<Rightarrow> UserSpecification \<Rightarrow> bool" where
  "accepted c user \<longleftrightarrow>
     (case strings_Split (User user) (CHR ''@'') of
        name # host # rest \<Rightarrow> userExists c name host = Inr True
      | _ \<Rightarrow> False)"

section \<open>Auxiliary facts\<close>

subsection \<open>Scans\<close>

lemma first_row_iff:
  "(case filter P rs of [] \<Rightarrow> None | r # rs' \<Rightarrow> Some r) \<noteq> None \<longleftrightarrow> (\<exists>r \<in> set rs. P r)"
  by (cases "filter P rs") (auto simp: filter_empty_conv dest: filter_eq_ConsD)

lemma userExists_eq:
  "userExists c name host =
     Inr (\<exists>r \<in> set (userTable c). holds r (composeUserTableFilter name host))"
  by (simp add: userExists_def JoinRset_Plan_def WhereRset_Plan_def Plan_Next_def
      composeUserTableRset_def table_rows_def first_row_iff del: not_None_eq)

lemma dbUserExists_eq:
  "dbUserExists c name host db =
     Inr (\<exists>r \<in> set (dbTable c). holds r (composeDBTableFilter name host db))"
  by (simp add: dbUserExists_def JoinRset_Plan_def WhereRset_Plan_def Plan_Next_def
      composeDBTableRset_def table_rows_def first_row_iff del: not_None_eq)

text \<open>The check of \<^verbatim>\<open>dbUserExists\<close> in terms of the rows of \<^verbatim>\<open>mysql.db\<close>.\<close>

lemma dbUserExists_rows:
  "dbUserExists c name host db =
     Inr (\<exists>r \<in> set (dbTable c). r ''User'' = name \<and> r ''Host'' = host \<and> r ''DB'' = db)"
  by (simp add: dbUserExists_eq composeDBTableFilter_def composeUserTableFilter_def)

subsection \<open>The assignments set privilege columns to Y\<close>

lemma grants_only_refl [simp]: "grants_only md r r"
  by (simp add: grants_only_def)

lemma grants_only_trans:
  "grants_only md r r1 \<Longrightarrow> grants_only md r1 r2 \<Longrightarrow> grants_only md r r2"
  unfolding grants_only_def by metis

lemma grants_only_set_columns:
  assumes "\<forall>a \<in> set asgns. Expr a = ''Y'' \<and> ColName a \<in> ran (Priv2UserCol md)"
  shows "grants_only md r (set_columns (map (\<lambda>a. (ColName a, Expr a)) asgns) r)"
  using assms
proof (induction asgns arbitrary: r)
  case Nil
  then show ?case by simp
next
  case (Cons a as)
  have "grants_only md r (r(ColName a := Expr a))"
    using Cons.prems by (simp add: grants_only_def)
  moreover have "grants_only md (r(ColName a := Expr a))
      (set_columns (map (\<lambda>a. (ColName a, Expr a)) as) (r(ColName a := Expr a)))"
    using Cons.prems by (intro Cons.IH) simp
  ultimately show ?case
    by (auto intro: grants_only_trans)
qed

lemma set_map_filter: "set (List.map_filter m ks) = {v. \<exists>k \<in> set ks. m k = Some v}"
  by (induction ks) (auto simp: List.map_filter_simps split: option.splits)

lemma composeGlobalPrivUpdate_columns:
  assumes "composeGlobalPrivUpdate md ks priv = Inr asgns"
  shows "\<forall>a \<in> set asgns. Expr a = ''Y'' \<and> ColName a \<in> ran (Priv2UserCol md)"
  using assms
  by (fastforce simp: composeGlobalPrivUpdate_def assignY_def set_map_filter
      split: if_splits option.splits intro: ranI)

lemma composeAllDBPrivs_columns:
  assumes "composeAllDBPrivs md priv ps assigns = Inr asgns"
    and "\<forall>a \<in> set assigns. Expr a = ''Y'' \<and> ColName a \<in> ran (Priv2UserCol md)"
  shows "\<forall>a \<in> set asgns. Expr a = ''Y'' \<and> ColName a \<in> ran (Priv2UserCol md)"
  using assms
proof (induction ps arbitrary: assigns)
  case Nil
  then show ?case by simp
next
  case (Cons p ps)
  from Cons.prems(1) obtain v where v: "Priv2UserCol md p = Some v"
    and rec: "composeAllDBPrivs md priv ps (assigns @ [assignY v]) = Inr asgns"
    by (auto split: option.splits)
  have "\<forall>a \<in> set (assigns @ [assignY v]). Expr a = ''Y'' \<and> ColName a \<in> ran (Priv2UserCol md)"
    using Cons.prems(2) v by (auto simp: assignY_def ran_def)
  from Cons.IH [OF rec this] show ?case .
qed

lemma composeDBPrivUpdate_columns:
  assumes "composeDBPrivUpdate md priv = Inr asgns"
  shows "\<forall>a \<in> set asgns. Expr a = ''Y'' \<and> ColName a \<in> ran (Priv2UserCol md)"
proof (cases "priv = AllPriv md")
  case True
  with assms have "composeAllDBPrivs md priv (AllDBPrivs md) [] = Inr asgns"
    by (simp add: composeDBPrivUpdate_def)
  from composeAllDBPrivs_columns [OF this] show ?thesis by simp
next
  case False
  with assms show ?thesis
    by (auto simp: composeDBPrivUpdate_def assignY_def ran_def split: option.splits)
qed

subsection \<open>Updates keep the rows\<close>

lemma rows_updated_refl [simp]: "rows_updated md rs rs"
  unfolding rows_updated_def by (rule exI [of _ id]) simp

lemma rows_updated_trans:
  assumes "rows_updated md rs rs1" and "rows_updated md rs1 rs2"
  shows "rows_updated md rs rs2"
proof -
  from assms obtain f g where f: "rs1 = map f rs" "\<forall>r \<in> set rs. grants_only md r (f r)"
    and g: "rs2 = map g rs1" "\<forall>r \<in> set rs1. grants_only md r (g r)"
    unfolding rows_updated_def by blast
  have "rs2 = map (g \<circ> f) rs"
    using f(1) g(1) by simp
  moreover have "\<forall>r \<in> set rs. grants_only md r ((g \<circ> f) r)"
    using f g(2) by (auto intro: grants_only_trans)
  ultimately show ?thesis
    unfolding rows_updated_def by blast
qed

lemma rows_updated_map: "rows_updated md rs rs' \<Longrightarrow> \<exists>f. rs' = map f rs"
  unfolding rows_updated_def by blast

lemma rows_updated_update:
  assumes "\<forall>a \<in> set asgns. Expr a = ''Y'' \<and> ColName a \<in> ran (Priv2UserCol md)"
  shows "rows_updated md rs
           (map (\<lambda>r. if holds r wh
                     then set_columns (map (\<lambda>a. (ColName a, Expr a)) asgns) r else r) rs)"
  unfolding rows_updated_def
  using grants_only_set_columns [OF assms]
  by (intro exI [of _ "\<lambda>r. if holds r wh
                     then set_columns (map (\<lambda>a. (ColName a, Expr a)) asgns) r else r"]) simp

lemma updates_only_refl: "updates_only md c c"
  by (simp add: updates_only_def)

lemma updates_only_trans:
  assumes "updates_only md c c1" and "updates_only md c1 c2"
  shows "updates_only md c c2"
proof -
  from assms obtain u1 u2 where
    "issued c1 = issued c @ u1" "list_all is_Update u1"
    "issued c2 = issued c1 @ u2" "list_all is_Update u2"
    by (auto simp: updates_only_def)
  then have "issued c2 = issued c @ (u1 @ u2) \<and> list_all is_Update (u1 @ u2)"
    by simp
  then have "\<exists>ups. issued c2 = issued c @ ups \<and> list_all is_Update ups"
    by blast
  moreover from assms have "rows_updated md (userTable c) (userTable c2)"
    by (auto simp: updates_only_def intro: rows_updated_trans)
  moreover from assms have "rows_updated md (dbTable c) (dbTable c2)"
    by (auto simp: updates_only_def intro: rows_updated_trans)
  ultimately show ?thesis
    by (simp add: updates_only_def)
qed

lemma updates_only_ranges [simp]:
  "updates_only md (c\<lparr>ranges := n\<rparr>) c' = updates_only md c c'"
  "updates_only md c (c'\<lparr>ranges := n\<rparr>) = updates_only md c c'"
  by (simp_all add: updates_only_def)

lemma UpdateStmt_Exec_updates_only:
  assumes "UpdateStmt_Exec t asgns wh c = (r, c')"
    and "\<forall>a \<in> set asgns. Expr a = ''Y'' \<and> ColName a \<in> ran (Priv2UserCol md)"
  shows "updates_only md c c' \<and> (t = composeUserTableRset \<longrightarrow> dbTable c' = dbTable c)"
proof -
  note up = rows_updated_update [OF assms(2), of _ wh]
  show ?thesis
  proof (cases "execError c (length (issued c))")
    case None
    with assms(1) up show ?thesis
      by (cases t)
        (auto simp: UpdateStmt_Exec_def Let_def updates_only_def set_table_rows_def
           table_rows_def composeUserTableRset_def)
  next
    case (Some err)
    with assms(1) show ?thesis
      by (auto simp: UpdateStmt_Exec_def Let_def updates_only_def)
  qed
qed

lemma grantGlobalPriv_updates_only:
  assumes "grantGlobalPriv md s priv user c = (r, c')"
  shows "updates_only md c c' \<and> dbTable c' = dbTable c"
proof (cases "composeGlobalPrivUpdate md (mapOrder c (ranges c)) (Priv priv)")
  case (Inl err)
  with assms show ?thesis
    by (auto simp: grantGlobalPriv_def Let_def updates_only_refl split: if_splits)
next
  case (Inr asgns)
  note cols = composeGlobalPrivUpdate_columns [OF Inr]
  from assms Inr show ?thesis
    unfolding grantGlobalPriv_def Let_def
    by (auto split: sum.splits if_splits
        dest!: UpdateStmt_Exec_updates_only [OF _ cols] simp: updates_only_refl)
qed

lemma grantDBPriv_updates_only:
  assumes "grantDBPriv md s priv user c = (r, c')"
  shows "updates_only md c c'"
proof (cases "composeDBPrivUpdate md (Priv priv)")
  case (Inl err)
  with assms show ?thesis
    by (auto simp: grantDBPriv_def updates_only_refl split: sum.splits)
next
  case (Inr asgns)
  note cols = composeDBPrivUpdate_columns [OF Inr]
  from assms Inr show ?thesis
    unfolding grantDBPriv_def Let_def
    by (auto split: sum.splits if_splits
        dest!: UpdateStmt_Exec_updates_only [OF _ cols] simp: updates_only_refl)
qed

lemma grantPriv_updates_only:
  "grantPriv md s priv user c = (r, c') \<Longrightarrow>
     updates_only md c c' \<and> (Level (StmtLevel s) \<noteq> GrantLevelDB \<longrightarrow> dbTable c' = dbTable c)"
  unfolding grantPriv_def grantTablePriv_def
  by (auto split: GrantLevelType.splits
      dest: grantGlobalPriv_updates_only grantDBPriv_updates_only simp: updates_only_refl)

lemma grantPrivs_updates_only:
  "grantPrivs md s privs user c = (r, c') \<Longrightarrow>
     updates_only md c c' \<and> (Level (StmtLevel s) \<noteq> GrantLevelDB \<longrightarrow> dbTable c' = dbTable c)"
proof (induction privs arbitrary: c)
  case Nil
  then show ?case by (simp add: updates_only_refl)
next
  case (Cons p ps)
  obtain r1 c1 where step: "grantPriv md s p user c = (r1, c1)"
    by (cases "grantPriv md s p user c")
  note fr = grantPriv_updates_only [OF step]
  show ?case
  proof (cases r1)
    case None
    with Cons.prems step have "grantPrivs md s ps user c1 = (r, c')" by simp
    from Cons.IH [OF this] fr show ?thesis
      by (auto intro: updates_only_trans)
  next
    case (Some e)
    with Cons.prems step have "c' = c1" by simp
    with fr show ?thesis by simp
  qed
qed

lemma Exec_user_updates_only:
  assumes "Level (StmtLevel s) \<noteq> GrantLevelDB" and "Exec_user md s user c = (r, c')"
  shows "updates_only md c c' \<and> dbTable c' = dbTable c"
  using assms unfolding Exec_user_def Let_def
  by (auto split: sum.splits if_splits dest: grantPrivs_updates_only simp: updates_only_refl)

lemma Exec_users_updates_only:
  assumes "Level (StmtLevel s) \<noteq> GrantLevelDB"
  shows "Exec_users md s users c = (r, c') \<Longrightarrow> updates_only md c c' \<and> dbTable c' = dbTable c"
proof (induction users arbitrary: c)
  case Nil
  then show ?case by (simp add: updates_only_refl)
next
  case (Cons u us)
  obtain r1 c1 where step: "Exec_user md s u c = (r1, c1)"
    by (cases "Exec_user md s u c")
  note fr = Exec_user_updates_only [OF assms step]
  show ?case
  proof (cases r1)
    case None
    with Cons.prems step have "Exec_users md s us c1 = (r, c')" by simp
    from Cons.IH [OF this] fr show ?thesis
      by (auto intro: updates_only_trans)
  next
    case (Some e)
    with Cons.prems step have "c' = c1" by simp
    with fr show ?thesis by simp
  qed
qed

subsection \<open>The principal check\<close>

lemma index_Cons2:
  "strs = a # b # rest \<Longrightarrow> index strs 0 = Inr a \<and> index strs 1 = Inr b"
  by (simp add: index_def)

lemma accepted_iff:
  "accepted c user \<longleftrightarrow>
     (\<exists>name host rest. strings_Split (User user) (CHR ''@'') = name # host # rest \<and>
        userExists c name host = Inr True)"
  by (auto simp: accepted_def split: list.splits)

text \<open>Past the check, the body of the loop is the database-scope initialisation followed
  by the loop over the privileges.\<close>

lemma Exec_user_accepted:
  assumes "strings_Split (User user) (CHR ''@'') = name # host # rest"
    and "userExists c name host = Inr True"
  shows "Exec_user md s user c =
           (case (if Level (StmtLevel s) = GrantLevelDB
                  then checkAndInitDBPriv s c name host else (None, c)) of
              (Some err, c') \<Rightarrow> (Some err, c')
            | (None, c') \<Rightarrow> grantPrivs md s (Privs s) user c')"
  using assms index_Cons2 [OF assms(1)]
  by (simp add: Exec_user_def Let_def)

lemma Exec_user_rejected:
  "\<not> accepted c user \<Longrightarrow>
     \<exists>e. Exec_user md s user c = (Some e, c) \<and> (\<forall>g. e \<noteq> UnknownGrantLevel g)"
  by (auto simp: accepted_def Exec_user_def Let_def index_def userExists_eq split: list.splits)

text \<open>When the body does nothing for an accepted principal, \<^verbatim>\<open>Exec\<close> is the chain of
  principal checks.\<close>

lemma Exec_users_no_grant:
  assumes "\<And>user c. accepted c user \<Longrightarrow> Exec_user md s user c = (None, c)"
  shows "Exec_users md s users c = (r, c') \<Longrightarrow>
    c' = c \<and> (\<forall>g. r \<noteq> Some (UnknownGrantLevel g)) \<and>
    (r = None \<longleftrightarrow> (\<forall>u \<in> set users. accepted c u))"
proof (induction users)
  case Nil
  then show ?case by simp
next
  case (Cons u us)
  show ?case
  proof (cases "accepted c u")
    case True
    with Cons assms show ?thesis by simp
  next
    case False
    from Exec_user_rejected [OF this, of md s] Cons.prems False show ?thesis
      by auto
  qed
qed

lemma grantPrivs_Table:
  "Level (StmtLevel s) = GrantLevelTable \<Longrightarrow> grantPrivs md s privs user c = (None, c)"
  by (induction privs) (simp_all add: grantPriv_def grantTablePriv_def)

subsection \<open>The loop over the principals\<close>

text \<open>Nothing but the loop itself reads \<^verbatim>\<open>s.Users\<close>, so \<^verbatim>\<open>Exec\<close> of the statement with
  another list of principals is the loop over that list.\<close>

lemma getTargetSchema_Users [simp]:
  "getTargetSchema (s\<lparr>Users := us\<rparr>) c = getTargetSchema s c"
  by (simp add: getTargetSchema_def)

lemma grantPriv_Users [simp]:
  "grantPriv md (s\<lparr>Users := us\<rparr>) priv user c = grantPriv md s priv user c"
  by (simp add: grantPriv_def grantGlobalPriv_def grantDBPriv_def grantTablePriv_def
      split: GrantLevelType.splits)

lemma grantPrivs_Users [simp]:
  "grantPrivs md (s\<lparr>Users := us\<rparr>) privs user c = grantPrivs md s privs user c"
  by (induction privs arbitrary: c) (simp_all split: prod.splits option.splits)

lemma checkAndInitDBPriv_Users [simp]:
  "checkAndInitDBPriv (s\<lparr>Users := us\<rparr>) c user host = checkAndInitDBPriv s c user host"
  by (simp add: checkAndInitDBPriv_def)

lemma Exec_user_Users [simp]:
  "Exec_user md (s\<lparr>Users := us\<rparr>) user c = Exec_user md s user c"
  by (simp add: Exec_user_def Let_def split: sum.splits prod.splits option.splits)

lemma Exec_users_Users [simp]:
  "Exec_users md (s\<lparr>Users := us\<rparr>) users c = Exec_users md s users c"
  by (induction users arbitrary: c) (simp_all split: prod.splits option.splits)



subsection \<open>One principal of a database-scope grant\<close>




subsection \<open>Expansion of a privilege into assignments\<close>

lemma composeAllDBPrivs_mapped:
  "set ps \<subseteq> dom (Priv2UserCol md) \<Longrightarrow>
     composeAllDBPrivs md priv ps assigns =
       Inr (assigns @ map assignY (List.map_filter (Priv2UserCol md) ps))"
proof (induction ps arbitrary: assigns)
  case Nil
  then show ?case by (simp add: List.map_filter_simps)
next
  case (Cons p ps)
  then obtain v where "Priv2UserCol md p = Some v" by auto
  with Cons show ?case by (simp add: List.map_filter_simps)
qed

text \<open>Two orders of the same keys give the same values, each as often.\<close>

lemma mset_map_filter_cong:
  assumes "mset ks = mset ks'"
  shows "mset (List.map_filter m ks) = mset (List.map_filter m ks')"
proof -
  have "mset (List.map_filter m xs) = image_mset (the \<circ> m) (filter_mset (\<lambda>x. m x \<noteq> None) (mset xs))"
    for xs
    by (simp add: List.map_filter_def)
  with assms show ?thesis by simp
qed

lemma assignY_inj [simp]: "assignY a = assignY b \<longleftrightarrow> a = b"
  by (simp add: assignY_def)

subsection \<open>The instances\<close>

lemmas ex_defs = ex_ctx_def ex_ctx_row_def ex_stmt_def ex_mysqldef_def

lemma ex_userExists:
  "userExists ex_ctx ''alice'' ''%'' = Inr True"
  "userExists ex_ctx_row ''alice'' ''%'' = Inr True"
  "userExists ex_ctx ''bob'' ''%'' = Inr False"
  by (simp_all add: userExists_eq ex_defs composeUserTableFilter_def default_row_def)


lemma ex_priv_tables: "priv_tables ex_mysqldef"
  by (simp add: priv_tables_def ex_mysqldef_def)

lemma ex_range_order:
  "range_order (Priv2UserCol ex_mysqldef) [1, 2, 3]"
  "range_order (Priv2UserCol ex_mysqldef) [3, 2, 1]"
  by (auto simp: range_order_def ex_mysqldef_def)


section \<open>The claims\<close>

subsection \<open>C1: the row of a database-scope grant is created once, before the updates\<close>



subsection \<open>C2: no insert outside database scope\<close>

text \<open>
  C2.  When the level of the statement is not the database level, \<^verbatim>\<open>Exec\<close> executes
  UPDATE statements only, whatever it returns: the user table keeps its rows, each in its
  place and possibly changed, and \<^verbatim>\<open>mysql.db\<close> is left as it was.
\<close>

theorem Exec_not_DB_never_inserts:
  assumes "Level (StmtLevel s) \<noteq> GrantLevelDB" and "Exec md s c = (r, c')"
  shows "(\<exists>ups. issued c' = issued c @ ups \<and> list_all is_Update ups) \<and>
         (\<exists>f. userTable c' = map f (userTable c)) \<and>
         dbTable c' = dbTable c"
  using Exec_users_updates_only [OF assms(1), of md "Users s" c r c'] assms(2)
  by (auto simp: Exec_def updates_only_def dest: rows_updated_map)

text \<open>\<^verbatim>\<open>GRANT SELECT, ALL ON *.* TO alice@%\<close>.\<close>

theorem Exec_not_DB_never_inserts_witness:
  "Level (StmtLevel (ex_stmt GrantLevelGlobal [] [1, 0] [''alice@%''])) \<noteq> GrantLevelDB \<and>
   (\<exists>ups. issued (snd (Exec ex_mysqldef (ex_stmt GrantLevelGlobal [] [1, 0] [''alice@%'']) ex_ctx)) = ups \<and>
      list_all is_Update ups) \<and>
   (\<exists>f. userTable (snd (Exec ex_mysqldef (ex_stmt GrantLevelGlobal [] [1, 0] [''alice@%'']) ex_ctx)) =
      map f [default_row(''Host'' := ''%'', ''User'' := ''alice'')]) \<and>
   dbTable (snd (Exec ex_mysqldef (ex_stmt GrantLevelGlobal [] [1, 0] [''alice@%'']) ex_ctx)) = []"
proof -
  let ?s = "ex_stmt GrantLevelGlobal [] [1, 0] [''alice@%'']"
  have lv: "Level (StmtLevel ?s) \<noteq> GrantLevelDB"
    by (simp add: ex_stmt_def)
  have a: "Exec ex_mysqldef ?s ex_ctx =
             (fst (Exec ex_mysqldef ?s ex_ctx), snd (Exec ex_mysqldef ?s ex_ctx))"
    by simp
  have i: "issued ex_ctx = []" "dbTable ex_ctx = []"
    "userTable ex_ctx = [default_row(''Host'' := ''%'', ''User'' := ''alice'')]"
    by (simp_all add: ex_ctx_def)
  from Exec_not_DB_never_inserts [OF lv a] lv i show ?thesis by simp
qed

subsection \<open>C3: ALL at database scope\<close>

text \<open>
  C3.  With tables as the spec describes them (\<open>priv_tables\<close>), the expansion of ALL at
  database scope succeeds with exactly the columns of the privileges in \<^verbatim>\<open>AllDBPrivs\<close>,
  each set to Y; the column of a privilege outside \<^verbatim>\<open>AllDBPrivs\<close> is not among them, while
  the global expansion of ALL has it; so the two expansions differ.
\<close>

theorem ALL_expansions_differ:
  assumes "priv_tables md" and "range_order (Priv2UserCol md) ks"
  shows "\<exists>dbs gs.
           composeDBPrivUpdate md (AllPriv md) = Inr dbs \<and>
           composeGlobalPrivUpdate md ks (AllPriv md) = Inr gs \<and>
           set dbs = {assignY col | col p. p \<in> set (AllDBPrivs md) \<and> Priv2UserCol md p = Some col} \<and>
           (\<forall>p col. Priv2UserCol md p = Some col \<and> p \<notin> set (AllDBPrivs md)
              \<longrightarrow> assignY col \<notin> set dbs \<and> assignY col \<in> set gs) \<and>
           set gs \<noteq> set dbs"
proof -
  let ?m = "Priv2UserCol md"
  let ?dbs = "map assignY (List.map_filter ?m (AllDBPrivs md))"
  let ?gs = "map assignY (List.map_filter ?m ks)"
  from assms(1) have sub: "set (AllDBPrivs md) \<subseteq> dom ?m"
    and inj: "inj_on ?m (dom ?m)"
    and ex: "\<exists>p \<in> dom ?m. p \<notin> set (AllDBPrivs md)"
    by (simp_all add: priv_tables_def)
  have db: "composeDBPrivUpdate md (AllPriv md) = Inr ?dbs"
    by (simp add: composeDBPrivUpdate_def composeAllDBPrivs_mapped [OF sub])
  have gl: "composeGlobalPrivUpdate md ks (AllPriv md) = Inr ?gs"
    by (simp add: composeGlobalPrivUpdate_def)
  have sdb: "set ?dbs = {assignY col | col p. p \<in> set (AllDBPrivs md) \<and> ?m p = Some col}"
    by (auto simp: set_map_filter)
  have only: "assignY col \<notin> set ?dbs \<and> assignY col \<in> set ?gs"
    if "?m p = Some col" "p \<notin> set (AllDBPrivs md)" for p col
  proof
    show "assignY col \<notin> set ?dbs"
    proof
      assume "assignY col \<in> set ?dbs"
      then obtain q where q: "q \<in> set (AllDBPrivs md)" "?m q = Some col"
        by (auto simp: set_map_filter)
      with that(1) inj have "q = p"
        by (auto dest!: inj_onD [where x = q and y = p])
      with q that(2) show False by simp
    qed
    from that(1) assms(2) have "p \<in> set ks"
      by (auto simp: range_order_def)
    with that(1) show "assignY col \<in> set ?gs"
      by (auto simp: set_map_filter)
  qed
  from ex obtain p col where "?m p = Some col" "p \<notin> set (AllDBPrivs md)"
    by auto
  from only [OF this] have "set ?gs \<noteq> set ?dbs" by blast
  with db gl sdb only show ?thesis by blast
qed

theorem ALL_expansions_differ_witness:
  "priv_tables ex_mysqldef \<and> range_order (Priv2UserCol ex_mysqldef) [3, 2, 1] \<and>
   (\<exists>dbs gs.
      composeDBPrivUpdate ex_mysqldef 0 = Inr dbs \<and>
      composeGlobalPrivUpdate ex_mysqldef [3, 2, 1] 0 = Inr gs \<and>
      assignY ''Create_user_priv'' \<notin> set dbs \<and> assignY ''Create_user_priv'' \<in> set gs \<and>
      set gs \<noteq> set dbs)"
proof -
  have p: "Priv2UserCol ex_mysqldef 3 = Some ''Create_user_priv''" "3 \<notin> set (AllDBPrivs ex_mysqldef)"
    "AllPriv ex_mysqldef = 0"
    by (simp_all add: ex_mysqldef_def)
  from ALL_expansions_differ [OF ex_priv_tables ex_range_order(2)] p
  have "\<exists>dbs gs.
      composeDBPrivUpdate ex_mysqldef 0 = Inr dbs \<and>
      composeGlobalPrivUpdate ex_mysqldef [3, 2, 1] 0 = Inr gs \<and>
      assignY ''Create_user_priv'' \<notin> set dbs \<and> assignY ''Create_user_priv'' \<in> set gs \<and>
      set gs \<noteq> set dbs"
    by (metis (no_types, lifting))
  with ex_priv_tables ex_range_order(2) show ?thesis by blast
qed

subsection \<open>C4: a named privilege at database scope\<close>

text \<open>
  C4.  A privilege kind that is valid at global scope only must fail when it is expanded
  at database scope.  The code misses the check: \<^verbatim>\<open>composeDBPrivUpdate\<close> looks a named
  privilege up in \<^verbatim>\<open>Priv2UserCol\<close>, the table of the user-table columns, as
  \<^verbatim>\<open>composeGlobalPrivUpdate\<close> does, while the ALL branch of the same function keeps to
  \<^verbatim>\<open>AllDBPrivs\<close>.  Privilege 3 of the instance is not ALL, is not in \<^verbatim>\<open>AllDBPrivs\<close> and
  has a user-table column: its expansion at database scope is no error but the
  assignment to that column, which the expansion of ALL at database scope leaves out,
  and the grant hands an UPDATE of \<^verbatim>\<open>mysql.db\<close> with that column to the executor.
\<close>

theorem named_priv_at_database_scope:
  "3 \<noteq> AllPriv ex_mysqldef \<and> 3 \<notin> set (AllDBPrivs ex_mysqldef) \<and>
   Priv2UserCol ex_mysqldef 3 = Some ''Create_user_priv'' \<and>
   composeDBPrivUpdate ex_mysqldef 3 = Inr [\<lparr>ColName = ''Create_user_priv'', Expr = ''Y''\<rparr>] \<and>
   composeDBPrivUpdate ex_mysqldef (AllPriv ex_mysqldef) =
     Inr [\<lparr>ColName = ''Select_priv'', Expr = ''Y''\<rparr>, \<lparr>ColName = ''Insert_priv'', Expr = ''Y''\<rparr>] \<and>
   fst (Exec ex_mysqldef (ex_stmt GrantLevelDB ''db1'' [3] [''alice@%'']) ex_ctx_row) = None \<and>
   issued (snd (Exec ex_mysqldef (ex_stmt GrantLevelDB ''db1'' [3] [''alice@%'']) ex_ctx_row)) =
     [Update DBTable [\<lparr>ColName = ''Create_user_priv'', Expr = ''Y''\<rparr>]
        (AndAnd (AndAnd (EQ ''User'' ''alice'') (EQ ''Host'' ''%'')) (EQ ''DB'' ''db1''))]"
  by (simp add: Exec_def Exec_user_def index_def userExists_eq checkAndInitDBPriv_def
      getTargetSchema_def dbUserExists_rows grantPriv_def grantDBPriv_def
      composeDBPrivUpdate_def UpdateStmt_Exec_def composeDBTableFilter_def
      composeUserTableFilter_def composeDBTableRset_def set_table_rows_def table_rows_def
      assignY_def ex_stmt_def ex_ctx_def ex_ctx_row_def ex_mysqldef_def default_row_def Let_def)

subsection \<open>C5: an unknown principal\<close>

text \<open>
  C5.  When the first principal of the statement has a name and a host that match no row
  of the user table, \<^verbatim>\<open>Exec\<close> returns the error "Unknown user" for it and the context is
  the one it started from: nothing was inserted or updated.
\<close>

theorem Exec_unknown_user:
  assumes "Users s = user # users"
    and "strings_Split (User user) (CHR ''@'') = name # host # rest"
    and "userExists c name host = Inr False"
  shows "Exec md s c = (Some (UnknownUser (User user)), c)"
  using assms index_Cons2 [OF assms(2)]
  by (simp add: Exec_def Exec_user_def Let_def)

theorem Exec_unknown_user_witness:
  "userExists ex_ctx ''bob'' ''%'' = Inr False \<and>
   Exec ex_mysqldef (ex_stmt GrantLevelGlobal [] [0] [''bob@%'', ''alice@%'']) ex_ctx =
     (Some (UnknownUser ''bob@%''), ex_ctx)"
proof -
  have u: "Users (ex_stmt GrantLevelGlobal [] [0] [''bob@%'', ''alice@%'']) =
             \<lparr>User = ''bob@%''\<rparr> # [\<lparr>User = ''alice@%''\<rparr>]"
    by (simp add: ex_stmt_def)
  have sp: "strings_Split (User \<lparr>User = ''bob@%''\<rparr>) (CHR ''@'') = ''bob'' # ''%'' # []"
    by simp
  from Exec_unknown_user [OF u sp ex_userExists(3), of ex_mysqldef] ex_userExists(3)
  show ?thesis by simp
qed

subsection \<open>C6: a principal without separator\<close>

text \<open>
  C6.  \<^verbatim>\<open>Exec\<close> splits the principal string itself and reads \<^verbatim>\<open>strs[1]\<close> with no check of
  the length.  For the principal \<open>alice\<close> the split has one part, and \<^verbatim>\<open>Exec\<close> ends in
  the index panic instead of an error of the statement's construction.  For the principal
  \<open>alice@%@x\<close> the split has three parts, and \<^verbatim>\<open>Exec\<close> goes on with the first two, as for
  \<open>alice@%\<close>.
\<close>

theorem Exec_principal_without_separator:
  "Exec ex_mysqldef (ex_stmt GrantLevelGlobal [] [1] [''alice'']) ex_ctx =
     (Some IndexOutOfRange, ex_ctx) \<and>
   strings_Split ''alice@%@x'' (CHR ''@'') = [''alice'', ''%'', ''x''] \<and>
   Exec ex_mysqldef (ex_stmt GrantLevelTable [] [1] [''alice@%@x'']) ex_ctx = (None, ex_ctx)"
  by (simp add: Exec_def Exec_user_def ex_stmt_def ex_ctx_def index_def userExists_eq
      composeUserTableFilter_def default_row_def grantPriv_def grantTablePriv_def)

subsection \<open>C7: the target schema\<close>

text \<open>
  C7.  \<^verbatim>\<open>getTargetSchema\<close> takes the database name of the level, or the current schema of
  the session when that name is empty.  If the name is still empty the result is the
  error "Miss DB name"; if the schema catalog does not have the name, the error
  "Unknown schema name"; otherwise the schema found.  The function returns no context:
  it only reads.
\<close>

theorem getTargetSchema_resolution:
  "(let n = (if DBName (StmtLevel s) = [] then currentSchema c else DBName (StmtLevel s))
    in (n = [] \<longrightarrow> getTargetSchema s c = Inl MissDBName) \<and>
       (n \<noteq> [] \<and> SchemaByName c n = None \<longrightarrow> getTargetSchema s c = Inl (UnknownSchemaName n)) \<and>
       (\<forall>db. n \<noteq> [] \<and> SchemaByName c n = Some db \<longrightarrow> getTargetSchema s c = Inr db))"
  by (simp add: getTargetSchema_def Let_def)

theorem getTargetSchema_resolution_witness:
  "getTargetSchema (ex_stmt GrantLevelDB [] [] []) (ex_ctx\<lparr>currentSchema := []\<rparr>) = Inl MissDBName \<and>
   getTargetSchema (ex_stmt GrantLevelDB ''nodb'' [] []) ex_ctx = Inl (UnknownSchemaName ''nodb'') \<and>
   getTargetSchema (ex_stmt GrantLevelDB ''db1'' [] []) ex_ctx = Inr \<lparr>Name_O = ''db1''\<rparr> \<and>
   getTargetSchema (ex_stmt GrantLevelDB [] [] []) ex_ctx = Inr \<lparr>Name_O = ''test''\<rparr>"
  using getTargetSchema_resolution [of "ex_stmt GrantLevelDB [] [] []" "ex_ctx\<lparr>currentSchema := []\<rparr>"]
    getTargetSchema_resolution [of "ex_stmt GrantLevelDB ''nodb'' [] []" ex_ctx]
    getTargetSchema_resolution [of "ex_stmt GrantLevelDB ''db1'' [] []" ex_ctx]
    getTargetSchema_resolution [of "ex_stmt GrantLevelDB [] [] []" ex_ctx]
  by (simp add: ex_stmt_def ex_ctx_def Let_def)

subsection \<open>C8: table scope\<close>

text \<open>
  C8.  For a table-scope grant whose principals all have a name and a host and exist in
  the user table, \<^verbatim>\<open>Exec\<close> returns success and the context is the one it started from:
  no statement was executed and no table changed.
\<close>

theorem Exec_Table_is_stub:
  assumes "Level (StmtLevel s) = GrantLevelTable"
    and "\<forall>u \<in> set (Users s). \<exists>name host rest.
           strings_Split (User u) (CHR ''@'') = name # host # rest \<and>
           userExists c name host = Inr True"
  shows "Exec md s c = (None, c)"
proof -
  have "Exec_user md s user c0 = (None, c0)" if "accepted c0 user" for user c0
    using that assms(1) unfolding accepted_iff
    by (auto simp: Exec_user_accepted grantPrivs_Table)
  from Exec_users_no_grant [of md s "Users s" c "fst (Exec md s c)" "snd (Exec md s c)", OF this]
    assms(2)
  have "snd (Exec md s c) = c \<and> fst (Exec md s c) = None"
    by (simp add: Exec_def accepted_iff)
  then show ?thesis by (simp add: prod_eq_iff)
qed

text \<open>\<^verbatim>\<open>GRANT SELECT ON tbl TO alice@%\<close>.\<close>

theorem Exec_Table_is_stub_witness:
  "Level (StmtLevel (ex_stmt GrantLevelTable ''tbl'' [1] [''alice@%''])) = GrantLevelTable \<and>
   userExists ex_ctx ''alice'' ''%'' = Inr True \<and>
   Exec ex_mysqldef (ex_stmt GrantLevelTable ''tbl'' [1] [''alice@%'']) ex_ctx = (None, ex_ctx)"
proof -
  let ?s = "ex_stmt GrantLevelTable ''tbl'' [1] [''alice@%'']"
  have lv: "Level (StmtLevel ?s) = GrantLevelTable"
    by (simp add: ex_stmt_def)
  have us: "\<forall>u \<in> set (Users ?s). \<exists>name host rest.
           strings_Split (User u) (CHR ''@'') = name # host # rest \<and>
           userExists ex_ctx name host = Inr True"
    using ex_userExists(1) by (simp add: ex_stmt_def)
  from Exec_Table_is_stub [OF lv us, of ex_mysqldef] lv ex_userExists(1) show ?thesis by simp
qed

subsection \<open>C9: the expansion and the order of a map\<close>

text \<open>
  C9, as the code has it.  The expansion functions take no context and return none.  The
  expansion at database scope and that of a named privilege do not depend on the order in
  which \<^verbatim>\<open>range\<close> visits \<^verbatim>\<open>Priv2UserCol\<close>.  The global expansion of ALL is built by that
  \<^verbatim>\<open>range\<close>: two calls return the same assignments, each as often, in an order that
  need not be the same.
\<close>

theorem expansion_up_to_order:
  assumes "range_order (Priv2UserCol md) ks" and "range_order (Priv2UserCol md) ks'"
  shows "(priv \<noteq> AllPriv md \<longrightarrow>
            composeGlobalPrivUpdate md ks priv = composeGlobalPrivUpdate md ks' priv) \<and>
         (\<exists>gs gs'. composeGlobalPrivUpdate md ks (AllPriv md) = Inr gs \<and>
            composeGlobalPrivUpdate md ks' (AllPriv md) = Inr gs' \<and> mset gs = mset gs')"
proof -
  from assms have "distinct ks" "distinct ks'" "set ks = set ks'"
    by (simp_all add: range_order_def)
  then have "mset ks = mset ks'"
    by (simp only: set_eq_iff_mset_eq_distinct)
  from mset_map_filter_cong [OF this, of "Priv2UserCol md"]
  have "mset (map assignY (List.map_filter (Priv2UserCol md) ks)) =
        mset (map assignY (List.map_filter (Priv2UserCol md) ks'))"
    by simp
  then show ?thesis
    by (simp add: composeGlobalPrivUpdate_def)
qed

theorem expansion_up_to_order_witness:
  "range_order (Priv2UserCol ex_mysqldef) [1, 2, 3] \<and>
   range_order (Priv2UserCol ex_mysqldef) [3, 2, 1] \<and>
   composeGlobalPrivUpdate ex_mysqldef [1, 2, 3] 2 = composeGlobalPrivUpdate ex_mysqldef [3, 2, 1] 2 \<and>
   (\<exists>gs gs'. composeGlobalPrivUpdate ex_mysqldef [1, 2, 3] 0 = Inr gs \<and>
      composeGlobalPrivUpdate ex_mysqldef [3, 2, 1] 0 = Inr gs' \<and> mset gs = mset gs')"
proof -
  have a: "AllPriv ex_mysqldef = 0"
    by (simp add: ex_mysqldef_def)
  from expansion_up_to_order [OF ex_range_order, of 2] ex_range_order a show ?thesis by simp
qed

text \<open>The claim as stated fails: two orders in which \<^verbatim>\<open>range\<close> may visit the table of
  the instance give two different assignment lists for ALL at global scope.\<close>

theorem expansion_order_counterexample:
  "range_order (Priv2UserCol ex_mysqldef) [1, 2, 3] \<and>
   range_order (Priv2UserCol ex_mysqldef) [3, 2, 1] \<and>
   composeGlobalPrivUpdate ex_mysqldef [1, 2, 3] (AllPriv ex_mysqldef) \<noteq>
   composeGlobalPrivUpdate ex_mysqldef [3, 2, 1] (AllPriv ex_mysqldef)"
proof -
  have "composeGlobalPrivUpdate ex_mysqldef [1, 2, 3] (AllPriv ex_mysqldef) =
          Inr [assignY ''Select_priv'', assignY ''Insert_priv'', assignY ''Create_user_priv'']"
    by (simp add: ex_mysqldef_def composeGlobalPrivUpdate_def List.map_filter_simps)
  moreover have "composeGlobalPrivUpdate ex_mysqldef [3, 2, 1] (AllPriv ex_mysqldef) =
          Inr [assignY ''Create_user_priv'', assignY ''Insert_priv'', assignY ''Select_priv'']"
    by (simp add: ex_mysqldef_def composeGlobalPrivUpdate_def List.map_filter_simps)
  ultimately show ?thesis
    using ex_range_order by simp
qed

subsection \<open>C10: a level outside the three, with no privilege\<close>

text \<open>
  C10, as the code has it.  With a level outside the three known ones and an empty
  privilege list, \<^verbatim>\<open>Exec\<close> changes nothing and never returns "Unknown grant level"; it
  returns success exactly when every principal has a name and a host and exists in the
  user table, since the principal check still runs.
\<close>

theorem Exec_other_level_no_privs:
  assumes "Level (StmtLevel s) = GrantLevelOther n" and "Privs s = []"
    and "Exec md s c = (r, c')"
  shows "c' = c \<and> (\<forall>g. r \<noteq> Some (UnknownGrantLevel g)) \<and>
         (r = None \<longleftrightarrow>
            (\<forall>u \<in> set (Users s). \<exists>name host rest.
                strings_Split (User u) (CHR ''@'') = name # host # rest \<and>
                userExists c name host = Inr True))"
proof -
  have "Exec_user md s user c0 = (None, c0)" if "accepted c0 user" for user c0
    using that assms(1,2) unfolding accepted_iff
    by (auto simp: Exec_user_accepted)
  from Exec_users_no_grant [of md s "Users s" c r c', OF this] assms(3)
  show ?thesis
    by (simp add: Exec_def accepted_iff)
qed

theorem Exec_other_level_no_privs_witness:
  "Level (StmtLevel (ex_stmt (GrantLevelOther 0) [] [] [''alice@%''])) = GrantLevelOther 0 \<and>
   Privs (ex_stmt (GrantLevelOther 0) [] [] [''alice@%'']) = [] \<and>
   Exec ex_mysqldef (ex_stmt (GrantLevelOther 0) [] [] [''alice@%'']) ex_ctx = (None, ex_ctx)"
proof -
  let ?s = "ex_stmt (GrantLevelOther 0) [] [] [''alice@%'']"
  have lv: "Level (StmtLevel ?s) = GrantLevelOther 0" and ps: "Privs ?s = []"
    by (simp_all add: ex_stmt_def)
  have a: "Exec ex_mysqldef ?s ex_ctx =
             (fst (Exec ex_mysqldef ?s ex_ctx), snd (Exec ex_mysqldef ?s ex_ctx))"
    by simp
  have us: "\<forall>u \<in> set (Users ?s). \<exists>name host rest.
           strings_Split (User u) (CHR ''@'') = name # host # rest \<and>
           userExists ex_ctx name host = Inr True"
    using ex_userExists(1) by (simp add: ex_stmt_def)
  from Exec_other_level_no_privs [OF lv ps a] us lv ps show ?thesis
    by (simp add: prod_eq_iff)
qed

text \<open>The claim as stated fails: with an empty privilege list and a level outside the
  three, a principal that is not in the user table still makes \<^verbatim>\<open>Exec\<close> return an error.\<close>

theorem Exec_other_level_counterexample:
  "Exec ex_mysqldef (ex_stmt (GrantLevelOther 0) [] [] [''bob@%'']) ex_ctx =
     (Some (UnknownUser ''bob@%''), ex_ctx)"
  by (simp add: Exec_def Exec_user_def ex_stmt_def ex_ctx_def index_def userExists_eq
      composeUserTableFilter_def default_row_def)

end
